theory Spec2Isabelle
  imports Main
begin

section \<open>Data model\<close>

text \<open>
  Values that arrive in socket payloads are typed \<open>any\<close> in the source and are compared
  with the strict operators \<open>===\<close> and \<open>!==\<close>. The identities that occur are user ids
  (integers, the source coerces them with \<open>Number\<close>), strings and \<open>undefined\<close>; on these
  strict equality is structural equality, which is HOL's \<open>=\<close> on \<open>jsval\<close>.
\<close>

datatype jsval = JUndefined | JNull | JNum int | JStr string

record user =
  user_id :: int
  username :: string
  email :: string

record version =
  version_id :: int
  version_content :: string
  createdAt :: string
  updatedBy :: "int \<times> string"

record document =
  doc_id :: int
  title :: string
  doc_content :: string
  owner :: "int \<times> string"
  versions :: "version list"

text \<open>A rejected request: \<open>error.response?.data?.message\<close>, when the response carries one.\<close>

datatype api_error = ApiError "string option"

text \<open>The payload of a \<open>document-update\<close> event, as far as the handler reads it.\<close>

record update =
  upd_userId :: jsval
  upd_content :: string

text \<open>Payloads of the events the client emits.\<close>

datatype payload =
    DocId "string option"
  | Change "string option" string nat
  | Save "string option" string

text \<open>
  The six handlers of the editor. A handler is a function object created by one render
  of the component; \<open>socket.off\<close> compares function objects, so a handler is identified
  by its kind together with the number of the render that created it.
\<close>

datatype hkind =
  HDocumentUpdate | HActiveUsers | HUserJoined | HUserLeft | HDocumentSaved | HSocketError

type_synonym handler = "nat \<times> hkind"

text \<open>
  A socket object of the client library: the token it was created with, whether it is
  still active (\<open>disconnect\<close> has not been called on it), its listeners in registration
  order and the log of its \<open>emit\<close> calls.
\<close>

record sock =
  auth_token :: string
  sock_active :: bool
  listeners :: "(string \<times> handler) list"
  emitted :: "(string \<times> payload) list"

text \<open>
  What a closure of the component captures from the render that created it: the route
  parameter \<open>id\<close>, the \<open>socket\<close> constant (the result of \<open>getSocket()\<close> at that render),
  the \<open>user\<close> of the authentication context and the \<open>content\<close> state.
\<close>

record scope =
  sc_id :: "string option"
  sc_socket :: "nat option"
  sc_user :: "user option"
  sc_content :: string

text \<open>A pending \<open>setTimeout\<close>: its id, the time it is due, and the callback
  \<open>() => handleSave(newContent)\<close> as the scope of \<open>handleSave\<close> and the captured body.\<close>

record timeout =
  t_id :: nat
  t_due :: nat
  t_scope :: scope
  t_body :: string

datatype request = Put "string option" string | Get "string option"

text \<open>A \<open>handleSave\<close> call suspended at one of its two \<open>await\<close>s.\<close>

datatype pending = AwaitPut scope string | AwaitGet scope

text \<open>
  The cleanup closure an effect returns: the scope of the render the effect belongs to
  (the handlers it registered are closures of that scope), the socket it found there, and
  the number of that render.
\<close>

datatype cleanup = Cleanup scope nat nat

text \<open>
  The whole client: the module variable of \<open>utils/socket\<close> with the socket objects it
  refers to (a handle is an index into \<open>sockets\<close>, so two references to one object are
  equal handles), the state and refs of the \<open>DocumentEditor\<close> component, and the parts of
  the browser and of the REST transport the component acts on.
\<close>

record world =
  socket :: "nat option"
  sockets :: "sock list"
  id_param :: "string option"
  user :: "user option"
  socket_c :: "nat option"
  mounted :: bool
  render_no :: nat
  effect_cleanup :: "cleanup option"
  document :: "document option"
  content :: string
  loading :: bool
  saving :: bool
  activeUsers :: "jsval list"
  lastSaved :: "nat option"
  saveTimeoutRef :: "nat option"
  now :: nat
  timers :: "timeout list"
  nextTimer :: nat
  alerts :: "string list"
  console :: "string list"
  location :: string
  requests :: "request list"
  fetches :: nat
  inflight :: "pending list"

section \<open>The socket module\<close>

text \<open>\<open>io(SOCKET_URL, { auth: { token } })\<close>: a new socket object for the token.\<close>

definition io :: "string \<Rightarrow> sock" where
  "io token = \<lparr>auth_token = token, sock_active = True, listeners = [], emitted = []\<rparr>"

text \<open>\<open>initSocket\<close> returns the handle together with the new state.\<close>

definition initSocket :: "string \<Rightarrow> world \<Rightarrow> nat \<times> world" where
  "initSocket token w =
     (case socket w of
        None \<Rightarrow> (length (sockets w),
                 w\<lparr>socket := Some (length (sockets w)), sockets := sockets w @ [io token]\<rparr>)
      | Some h \<Rightarrow> (h, w))"

definition getSocket :: "world \<Rightarrow> nat option" where
  "getSocket w = socket w"

definition sock_disconnect :: "nat \<Rightarrow> world \<Rightarrow> world" where
  "sock_disconnect h w =
     (if h < length (sockets w)
      then w\<lparr>sockets := (sockets w)[h := (sockets w ! h)\<lparr>sock_active := False\<rparr>]\<rparr>
      else w)"

definition disconnectSocket :: "world \<Rightarrow> world" where
  "disconnectSocket w =
     (case socket w of
        None \<Rightarrow> w
      | Some h \<Rightarrow> (sock_disconnect h w)\<lparr>socket := None\<rparr>)"

text \<open>A run of \<open>initSocket\<close> calls, one per token, with no \<open>disconnectSocket\<close> between.\<close>

fun initSockets :: "string list \<Rightarrow> world \<Rightarrow> world" where
  "initSockets [] w = w"
| "initSockets (t # ts) w = initSockets ts (snd (initSocket t w))"

text \<open>The state of a page that has just been loaded on the editor's route: nobody is signed
  in, the component is on the page with its initial state.\<close>

definition fresh_world :: "string option \<Rightarrow> world" where
  "fresh_world i =
     \<lparr>socket = None, sockets = [], id_param = i, user = None, socket_c = None,
      mounted = True, render_no = 0, effect_cleanup = None, document = None, content = [],
      loading = True, saving = False, activeUsers = [], lastSaved = None,
      saveTimeoutRef = None, now = 0, timers = [], nextTimer = 1, alerts = [],
      console = [], location = ''/editor/'' @ (case i of None \<Rightarrow> [] | Some s \<Rightarrow> s), requests = [], fetches = 0, inflight = []\<rparr>"

section \<open>The editor component\<close>

text \<open>\<open>!id\<close> for \<open>id: string | undefined\<close>: true for \<open>undefined\<close> and for the empty string.\<close>

definition falsy :: "string option \<Rightarrow> bool" where
  "falsy i = (case i of None \<Rightarrow> True | Some s \<Rightarrow> s = [])"

text \<open>\<open>error.response?.data?.message || dflt\<close>\<close>

definition error_message :: "api_error \<Rightarrow> string \<Rightarrow> string" where
  "error_message e dflt =
     (case e of ApiError None \<Rightarrow> dflt | ApiError (Some m) \<Rightarrow> (if m = [] then dflt else m))"

text \<open>\<open>user?.id\<close>\<close>

definition local_id :: "user option \<Rightarrow> jsval" where
  "local_id u = (case u of None \<Rightarrow> JUndefined | Some x \<Rightarrow> JNum (user_id x))"

text \<open>
  A render of the component evaluates \<open>const socket = getSocket()\<close> and creates new
  function objects for the handlers.
\<close>

definition render :: "world \<Rightarrow> world" where
  "render w =
     (if mounted w then w\<lparr>socket_c := getSocket w, render_no := Suc (render_no w)\<rparr> else w)"

definition scope_of :: "world \<Rightarrow> scope" where
  "scope_of w = \<lparr>sc_id = id_param w, sc_socket = socket_c w, sc_user = user w,
                 sc_content = content w\<rparr>"

subsection \<open>Browser and socket primitives\<close>

definition alert :: "string \<Rightarrow> world \<Rightarrow> world" where
  "alert m w = w\<lparr>alerts := alerts w @ [m]\<rparr>"

definition console_error :: "string \<Rightarrow> world \<Rightarrow> world" where
  "console_error m w = w\<lparr>console := console w @ [m]\<rparr>"

definition emit :: "nat \<Rightarrow> string \<Rightarrow> payload \<Rightarrow> world \<Rightarrow> world" where
  "emit h ev p w =
     (if h < length (sockets w)
      then w\<lparr>sockets := (sockets w)[h := (sockets w ! h)
                \<lparr>emitted := emitted (sockets w ! h) @ [(ev, p)]\<rparr>]\<rparr>
      else w)"

text \<open>\<open>socket.on\<close> appends a listener; \<open>socket.off\<close> removes the first listener of the
  event that is the given function object.\<close>

definition sock_on :: "nat \<Rightarrow> string \<Rightarrow> handler \<Rightarrow> world \<Rightarrow> world" where
  "sock_on h ev f w =
     (if h < length (sockets w)
      then w\<lparr>sockets := (sockets w)[h := (sockets w ! h)
                \<lparr>listeners := listeners (sockets w ! h) @ [(ev, f)]\<rparr>]\<rparr>
      else w)"

definition sock_off :: "nat \<Rightarrow> string \<Rightarrow> handler \<Rightarrow> world \<Rightarrow> world" where
  "sock_off h ev f w =
     (if h < length (sockets w)
      then w\<lparr>sockets := (sockets w)[h := (sockets w ! h)
                \<lparr>listeners := remove1 (ev, f) (listeners (sockets w ! h))\<rparr>]\<rparr>
      else w)"

definition clearTimeout :: "nat \<Rightarrow> world \<Rightarrow> world" where
  "clearTimeout t w = w\<lparr>timers := filter (\<lambda>x. t_id x \<noteq> t) (timers w)\<rparr>"

definition setTimeout :: "scope \<Rightarrow> string \<Rightarrow> nat \<Rightarrow> world \<Rightarrow> nat \<times> world" where
  "setTimeout sc body delay w =
     (nextTimer w,
      w\<lparr>timers := timers w @ [\<lparr>t_id = nextTimer w, t_due = now w + delay,
                                 t_scope = sc, t_body = body\<rparr>],
        nextTimer := Suc (nextTimer w)\<rparr>)"

subsection \<open>The effect of the component and its cleanup\<close>

text \<open>The event name each handler is registered under.\<close>

fun event_of :: "hkind \<Rightarrow> string" where
  "event_of HDocumentUpdate = ''document-update''"
| "event_of HActiveUsers = ''active-users''"
| "event_of HUserJoined = ''user-joined''"
| "event_of HUserLeft = ''user-left''"
| "event_of HDocumentSaved = ''document-saved''"
| "event_of HSocketError = ''error''"

definition all_handlers :: "hkind list" where
  "all_handlers =
     [HDocumentUpdate, HActiveUsers, HUserJoined, HUserLeft, HDocumentSaved, HSocketError]"

text \<open>The listeners that the effect of render \<open>g\<close> registers.\<close>

definition session_listeners :: "nat \<Rightarrow> (string \<times> handler) list" where
  "session_listeners g = map (\<lambda>k. (event_of k, (g, k))) all_handlers"

text \<open>The route table of \<open>App.tsx\<close> renders the editor on \<open>/editor/:id\<close> only.\<close>

definition editor_route :: "string \<Rightarrow> bool" where
  "editor_route path = (take 8 path = ''/editor/'' \<and> 8 < length path)"

text \<open>The cleanup closure returned by the effect, run when the component unmounts.\<close>

definition run_cleanup :: "world \<Rightarrow> world" where
  "run_cleanup w =
     (case effect_cleanup w of
        None \<Rightarrow> w
      | Some (Cleanup sc h g) \<Rightarrow>
          (sock_off h ''error'' (g, HSocketError)
          (sock_off h ''document-saved'' (g, HDocumentSaved)
          (sock_off h ''user-left'' (g, HUserLeft)
          (sock_off h ''user-joined'' (g, HUserJoined)
          (sock_off h ''active-users'' (g, HActiveUsers)
          (sock_off h ''document-update'' (g, HDocumentUpdate)
          (emit h ''leave-document'' (DocId (sc_id sc)) w)))))))\<lparr>effect_cleanup := None\<rparr>)"

definition unmount :: "world \<Rightarrow> world" where
  "unmount w = (run_cleanup w)\<lparr>mounted := False\<rparr>"

text \<open>\<open>navigate\<close> changes the location; a location that is not the editor's route takes
  the mounted editor off the page.\<close>

definition navigate :: "string \<Rightarrow> world \<Rightarrow> world" where
  "navigate path w =
     (if editor_route path \<or> \<not> mounted w then w\<lparr>location := path\<rparr>
      else unmount (w\<lparr>location := path\<rparr>))"

text \<open>The \<open>catch\<close> block of \<open>fetchDocument\<close>.\<close>

definition load_failed :: "api_error \<Rightarrow> world \<Rightarrow> world" where
  "load_failed e w =
     navigate ''/documents''
       (alert (error_message e ''Failed to load document'')
         (console_error ''Error fetching document:'' w))"

text \<open>\<open>fetchDocument\<close> up to its \<open>await\<close>, and its continuation once the request settles
  (there is none to run when no fetch is outstanding).\<close>

definition fetchDocument :: "world \<Rightarrow> world" where
  "fetchDocument w =
     w\<lparr>requests := requests w @ [Get (id_param w)], fetches := Suc (fetches w)\<rparr>"

definition fetchDocument_settled :: "api_error + document \<Rightarrow> world \<Rightarrow> world option" where
  "fetchDocument_settled res w =
     (if fetches w = 0 then None
      else
        (case res of
           Inr d \<Rightarrow> Some (w\<lparr>document := Some d, content := doc_content d, loading := False,
                            fetches := fetches w - 1\<rparr>)
         | Inl e \<Rightarrow>
             Some (load_failed e (w\<lparr>fetches := fetches w - 1\<rparr>))))"

text \<open>The body of \<open>useEffect\<close>, run after the render whose number is \<open>render_no\<close>.\<close>

definition useEffect_run :: "world \<Rightarrow> world" where
  "useEffect_run w =
     (if falsy (id_param w) then w\<lparr>effect_cleanup := None\<rparr>
      else
        (case socket_c w of
           None \<Rightarrow> (fetchDocument w)\<lparr>effect_cleanup := None\<rparr>
         | Some h \<Rightarrow>
             (sock_on h ''error'' (render_no w, HSocketError)
             (sock_on h ''document-saved'' (render_no w, HDocumentSaved)
             (sock_on h ''user-left'' (render_no w, HUserLeft)
             (sock_on h ''user-joined'' (render_no w, HUserJoined)
             (sock_on h ''active-users'' (render_no w, HActiveUsers)
             (sock_on h ''document-update'' (render_no w, HDocumentUpdate)
             (emit h ''join-document'' (DocId (id_param w))
             (fetchDocument w))))))))
               \<lparr>effect_cleanup := Some (Cleanup (scope_of w) h (render_no w))\<rparr>))"

subsection \<open>Socket event handlers\<close>

definition handleDocumentUpdate :: "scope \<Rightarrow> update \<Rightarrow> world \<Rightarrow> world" where
  "handleDocumentUpdate sc data w =
     (if upd_userId data \<noteq> local_id (sc_user sc) then w\<lparr>content := upd_content data\<rparr>
      else w)"

definition handleActiveUsers :: "jsval list \<Rightarrow> world \<Rightarrow> world" where
  "handleActiveUsers users w = w\<lparr>activeUsers := users\<rparr>"

definition handleUserJoined :: "jsval \<Rightarrow> world \<Rightarrow> world" where
  "handleUserJoined userId w = w\<lparr>activeUsers := activeUsers w @ [userId]\<rparr>"

definition handleUserLeft :: "jsval \<Rightarrow> world \<Rightarrow> world" where
  "handleUserLeft userId w = w\<lparr>activeUsers := filter (\<lambda>u. u \<noteq> userId) (activeUsers w)\<rparr>"

definition handleDocumentSaved :: "nat \<Rightarrow> world \<Rightarrow> world" where
  "handleDocumentSaved timestamp w = w\<lparr>lastSaved := Some timestamp, saving := False\<rparr>"

definition handleSocketError :: "string \<Rightarrow> world \<Rightarrow> world" where
  "handleSocketError m w = alert m (console_error ''Socket error:'' w)"

subsection \<open>Editing and saving\<close>

text \<open>
  \<open>handleSave\<close> up to its first \<open>await\<close>: the request is sent and the call is suspended.
\<close>

definition handleSave :: "scope \<Rightarrow> string option \<Rightarrow> world \<Rightarrow> world" where
  "handleSave sc contentToSave w =
     (if falsy (sc_id sc) then w
      else
        (let saveContent = (case contentToSave of Some c \<Rightarrow> c | None \<Rightarrow> sc_content sc)
         in w\<lparr>saving := True,
              requests := requests w @ [Put (sc_id sc) saveContent],
              inflight := inflight w @ [AwaitPut sc saveContent]\<rparr>))"

definition drop_nth :: "nat \<Rightarrow> 'a list \<Rightarrow> 'a list" where
  "drop_nth k xs = take k xs @ drop (Suc k) xs"

text \<open>The \<open>catch\<close> and \<open>finally\<close> blocks of \<open>handleSave\<close>, for the suspended call \<open>k\<close>.\<close>

definition save_failed :: "api_error \<Rightarrow> nat \<Rightarrow> world \<Rightarrow> world" where
  "save_failed e k w =
     (alert (error_message e ''Failed to save document'')
       (console_error ''Error saving document:'' w))
         \<lparr>saving := False, inflight := drop_nth k (inflight w)\<rparr>"

text \<open>The \<open>PUT\<close> of the suspended call \<open>k\<close> settles.\<close>

definition put_settled :: "nat \<Rightarrow> api_error + unit \<Rightarrow> world \<Rightarrow> world option" where
  "put_settled k res w =
     (if k < length (inflight w) then
        (case inflight w ! k of
           AwaitPut sc saveContent \<Rightarrow>
             (case res of
                Inl e \<Rightarrow> Some (save_failed e k w)
              | Inr u \<Rightarrow>
                  (let w1 = (case sc_socket sc of
                               None \<Rightarrow> w
                             | Some h \<Rightarrow> emit h ''save-document'' (Save (sc_id sc) saveContent) w)
                   in Some (w1\<lparr>lastSaved := Some (now w1),
                               requests := requests w1 @ [Get (sc_id sc)],
                               inflight := (inflight w1)[k := AwaitGet sc]\<rparr>)))
         | AwaitGet sc \<Rightarrow> None)
      else None)"

text \<open>The refreshing \<open>GET\<close> of the suspended call \<open>k\<close> settles.\<close>

definition get_settled :: "nat \<Rightarrow> api_error + document \<Rightarrow> world \<Rightarrow> world option" where
  "get_settled k res w =
     (if k < length (inflight w) then
        (case inflight w ! k of
           AwaitGet sc \<Rightarrow>
             (case res of
                Inl e \<Rightarrow> Some (save_failed e k w)
              | Inr d \<Rightarrow> Some (w\<lparr>document := Some d, saving := False,
                                 inflight := drop_nth k (inflight w)\<rparr>))
         | AwaitPut sc saveContent \<Rightarrow> None)
      else None)"

definition handleContentChange :: "scope \<Rightarrow> string \<Rightarrow> nat \<Rightarrow> world \<Rightarrow> world" where
  "handleContentChange sc newContent selectionStart w =
     (let w1 = w\<lparr>content := newContent\<rparr>;
          w2 = (case sc_socket sc of
                  None \<Rightarrow> w1
                | Some h \<Rightarrow> emit h ''document-change''
                             (Change (sc_id sc) newContent selectionStart) w1);
          w3 = (case saveTimeoutRef w2 of None \<Rightarrow> w2 | Some t \<Rightarrow> clearTimeout t w2);
          (t, w4) = setTimeout sc newContent 2000 w3
      in w4\<lparr>saveTimeoutRef := Some t\<rparr>)"

section \<open>The event loop\<close>

text \<open>
  Handlers run one at a time, each to its next \<open>await\<close>. What runs next is the
  environment's choice: a keystroke, time passing, a pending timeout that is due, a
  request of a suspended \<open>handleSave\<close> settling, the request of \<open>fetchDocument\<close>
  settling, or a \<open>document-update\<close> arriving for the registered handler. \<open>None\<close> says the
  event cannot happen in the state. The component renders again after each handler.
\<close>

datatype event =
    Edit string nat
  | Advance nat
  | Fire nat
  | PutDone nat "api_error + unit"
  | GetDone nat "api_error + document"
  | FetchDone "api_error + document"
  | DocumentUpdate update

definition advance :: "nat \<Rightarrow> world \<Rightarrow> world" where
  "advance d w = w\<lparr>now := now w + d\<rparr>"

text \<open>A pending timeout runs its callback once it is due, and is pending no more.\<close>

definition fire :: "nat \<Rightarrow> world \<Rightarrow> world option" where
  "fire tid w =
     (case filter (\<lambda>x. t_id x = tid) (timers w) of
        [] \<Rightarrow> None
      | x # xs \<Rightarrow>
          (if t_due x \<le> now w
           then Some (handleSave (t_scope x) (Some (t_body x)) (clearTimeout tid w))
           else None))"

text \<open>The timeout that \<open>saveTimeoutRef\<close> refers to fires.\<close>

definition fire_ref :: "world \<Rightarrow> world option" where
  "fire_ref w = (case saveTimeoutRef w of None \<Rightarrow> None | Some t \<Rightarrow> fire t w)"

text \<open>The textarea is on the page once the document is loaded.\<close>

definition editable :: "world \<Rightarrow> bool" where
  "editable w = (mounted w \<and> \<not> loading w \<and> document w \<noteq> None)"

fun step :: "event \<Rightarrow> world \<Rightarrow> world option" where
  "step (Edit newContent sel) w =
     (if editable w then Some (render (handleContentChange (scope_of w) newContent sel w))
      else None)"
| "step (Advance d) w = Some (advance d w)"
| "step (Fire tid) w = map_option render (fire tid w)"
| "step (PutDone k res) w = map_option render (put_settled k res w)"
| "step (GetDone k res) w = map_option render (get_settled k res w)"
| "step (FetchDone res) w = map_option render (fetchDocument_settled res w)"
| "step (DocumentUpdate data) w =
     (case effect_cleanup w of
        None \<Rightarrow> None
      | Some (Cleanup sc h g) \<Rightarrow> Some (render (handleDocumentUpdate sc data w)))"

fun run :: "event list \<Rightarrow> world \<Rightarrow> world option" where
  "run [] w = Some w"
| "run (e # es) w = (case step e w of None \<Rightarrow> None | Some w' \<Rightarrow> run es w')"

text \<open>A keystroke in the textarea, and the render that follows it.\<close>

definition keystroke :: "string \<Rightarrow> nat \<Rightarrow> world \<Rightarrow> world" where
  "keystroke newContent sel w = render (handleContentChange (scope_of w) newContent sel w)"

text \<open>
  \<open>document-update\<close> events arriving one after the other, each handled by a registered
  listener (a closure of the given scope) and followed by a render.
\<close>

fun updates :: "(scope \<times> update) list \<Rightarrow> world \<Rightarrow> world" where
  "updates [] w = w"
| "updates ((sc, data) # us) w = updates us (render (handleDocumentUpdate sc data w))"

text \<open>
  \<open>d\<close> milliseconds pass in which the user types nothing and nothing arrives. The timeout
  that \<open>saveTimeoutRef\<close> refers to runs at the moment it falls due, when that moment lies
  within the \<open>d\<close> milliseconds (at once when it is overdue already), and the rest of the
  time passes after it; otherwise the time just passes.
\<close>

definition pause :: "nat \<Rightarrow> world \<Rightarrow> world" where
  "pause d w =
     (case saveTimeoutRef w of
        None \<Rightarrow> advance d w
      | Some t \<Rightarrow>
          (case filter (\<lambda>x. t_id x = t) (timers w) of
             [] \<Rightarrow> advance d w
           | x # xs \<Rightarrow>
               (if now w + d < t_due x then advance d w
                else
                  (case fire t (advance (t_due x - now w) w) of
                     None \<Rightarrow> advance d w
                   | Some w' \<Rightarrow>
                       advance (now w + d - max (now w) (t_due x)) (render w')))))"

text \<open>A run of keystrokes, each followed by a pause.\<close>

fun edits :: "(string \<times> nat \<times> nat) list \<Rightarrow> world \<Rightarrow> world" where
  "edits [] w = w"
| "edits ((newContent, sel, d) # es) w = edits es (pause d (keystroke newContent sel w))"

text \<open>The number of \<open>handleSave\<close> calls in flight at the end of a run.\<close>

definition in_flight :: "world option \<Rightarrow> nat option" where
  "in_flight r = map_option (\<lambda>w. length (inflight w)) r"

text \<open>Every pending timeout is the one \<open>saveTimeoutRef\<close> refers to.\<close>

definition timer_inv :: "world \<Rightarrow> bool" where
  "timer_inv w = list_all (\<lambda>x. saveTimeoutRef w = Some (t_id x)) (timers w)"

text \<open>
  The editor opened on a document by a signed-in user: the socket is created at sign-in,
  the component renders and its effect runs.
\<close>

definition opened :: "string \<Rightarrow> string \<Rightarrow> user \<Rightarrow> world" where
  "opened i token u =
     useEffect_run (render ((snd (initSocket token (fresh_world (Some i))))\<lparr>user := Some u\<rparr>))"

text \<open>A user and a document for the concrete scenarios below.\<close>

definition ann :: user where
  "ann = \<lparr>user_id = 7, username = ''ann'', email = ''ann@example.org''\<rparr>"

definition hello_doc :: document where
  "hello_doc = \<lparr>doc_id = 1, title = ''Notes'', doc_content = ''Hello'', owner = (7, ''ann''),
                 versions = []\<rparr>"

text \<open>
  The states of one session: the document has loaded; the user has typed and two seconds
  have passed; the timeout has fired and the write is on its way.
\<close>

definition loaded_world :: world where
  "loaded_world =
     (case fetchDocument_settled (Inr hello_doc) (opened ''1'' ''tok'' ann) of
        None \<Rightarrow> opened ''1'' ''tok'' ann
      | Some w \<Rightarrow> render w)"

definition typed_world :: world where
  "typed_world =
     advance 2000 (render (handleContentChange (scope_of loaded_world) ''Hello world'' 11
       loaded_world))"

definition saving_world :: world where
  "saving_world = (case fire_ref typed_world of None \<Rightarrow> typed_world | Some w \<Rightarrow> render w)"

section \<open>Properties of the socket module\<close>

lemma initSocket_active:
  "socket w = Some h \<Longrightarrow> initSocket token w = (h, w)"
  by (simp add: initSocket_def)

lemma initSockets_active:
  "socket w = Some h \<Longrightarrow> initSockets ts w = w"
  by (induction ts) (simp_all add: initSocket_def)

text \<open>
  Claim C7. \<open>initSocket\<close> with a handle in place returns that handle and changes nothing,
  so no second socket object is created; \<open>disconnectSocket\<close> with no handle changes
  nothing; after \<open>disconnectSocket\<close> the module variable is empty, whatever it was.
\<close>

theorem C7_connect_idempotent_disconnect_safe:
  "(socket w = Some h \<longrightarrow> initSocket token w = (h, w))
   \<and> (socket w = None \<longrightarrow> disconnectSocket w = w)
   \<and> socket (disconnectSocket w) = None"
  by (simp add: initSocket_def disconnectSocket_def sock_disconnect_def split: option.splits)

theorem C7_connect_idempotent_disconnect_safe_witness:
  "socket (snd (initSocket ''t1'' (fresh_world (Some ''1'')))) = Some 0
   \<and> initSocket ''t1'' (snd (initSocket ''t1'' (fresh_world (Some ''1''))))
       = (0, snd (initSocket ''t1'' (fresh_world (Some ''1''))))
   \<and> socket (fresh_world (Some ''1'')) = None
   \<and> disconnectSocket (fresh_world (Some ''1'')) = fresh_world (Some ''1'')
   \<and> socket (disconnectSocket (snd (initSocket ''t1'' (fresh_world (Some ''1''))))) = None"
proof -
  have a: "socket (snd (initSocket ''t1'' (fresh_world (Some ''1'')))) = Some 0"
    by (simp add: initSocket_def fresh_world_def)
  have b: "socket (fresh_world (Some ''1'')) = None"
    by (simp add: fresh_world_def)
  from a b
    C7_connect_idempotent_disconnect_safe
      [of "snd (initSocket ''t1'' (fresh_world (Some ''1'')))" 0 "''t1''"]
    C7_connect_idempotent_disconnect_safe [of "fresh_world (Some ''1'')" 0 "''t1''"]
  show ?thesis by simp
qed

text \<open>
  Claim C10. After \<open>initSocket t1\<close> on a state with no handle, \<open>initSocket t2\<close> returns the
  handle created for \<open>t1\<close> and leaves the state as it was, so the socket object behind the
  handle still carries \<open>t1\<close>; and any further run of \<open>initSocket\<close> calls, with whatever
  tokens, leaves the state unchanged as long as \<open>disconnectSocket\<close> is not called.
\<close>

theorem C10_second_token_ignored:
  assumes "socket w = None" and "t1 \<noteq> t2"
  shows "initSocket t2 (snd (initSocket t1 w)) = (fst (initSocket t1 w), snd (initSocket t1 w))
         \<and> auth_token (sockets (snd (initSocket t2 (snd (initSocket t1 w))))
                        ! fst (initSocket t2 (snd (initSocket t1 w)))) = t1
         \<and> length (sockets (snd (initSocket t2 (snd (initSocket t1 w))))) = Suc (length (sockets w))
         \<and> initSockets ts (snd (initSocket t1 w)) = snd (initSocket t1 w)"
proof -
  let ?w1 = "snd (initSocket t1 w)"
  let ?h = "length (sockets w)"
  from assms(1) have w1: "initSocket t1 w = (?h, w\<lparr>socket := Some ?h, sockets := sockets w @ [io t1]\<rparr>)"
    by (simp add: initSocket_def)
  then have s1: "socket ?w1 = Some ?h" by simp
  then have second: "initSocket t2 ?w1 = (?h, ?w1)" by (rule initSocket_active)
  have tok: "auth_token (sockets ?w1 ! ?h) = t1"
    using w1 by (simp add: io_def)
  have len: "length (sockets ?w1) = Suc ?h"
    using w1 by simp
  have many: "initSockets ts ?w1 = ?w1"
    using s1 by (rule initSockets_active)
  from w1 second tok len many show ?thesis by simp
qed

theorem C10_second_token_ignored_witness:
  "socket (fresh_world (Some ''1'')) = None \<and> ''t1'' \<noteq> ''t2''
   \<and> initSocket ''t2'' (snd (initSocket ''t1'' (fresh_world (Some ''1''))))
       = (fst (initSocket ''t1'' (fresh_world (Some ''1''))),
          snd (initSocket ''t1'' (fresh_world (Some ''1''))))
   \<and> auth_token (sockets (snd (initSocket ''t2'' (snd (initSocket ''t1'' (fresh_world (Some ''1''))))))
        ! fst (initSocket ''t2'' (snd (initSocket ''t1'' (fresh_world (Some ''1'')))))) = ''t1''"
proof -
  have a: "socket (fresh_world (Some ''1'')) = None"
    by (simp add: fresh_world_def)
  have b: "''t1'' \<noteq> ''t2''" by simp
  from a b C10_second_token_ignored [OF a b, of "[]"] show ?thesis
    by (simp add: initSocket_def fresh_world_def io_def)
qed

section \<open>Change reconciliation and presence\<close>

lemma opened_user: "sc_user (scope_of (opened i token u)) = Some u"
  by (simp add: scope_of_def opened_def useEffect_run_def render_def initSocket_def
      fresh_world_def falsy_def getSocket_def sock_on_def emit_def fetchDocument_def)


text \<open>
  Claim C1. The handler replaces the local body by the update's body when the update's
  \<open>userId\<close> is not the local \<open>user?.id\<close>, touching nothing else, and leaves the whole state
  as it is when the two are equal.
\<close>

theorem C1_remote_update_echo_suppressed:
  "(upd_userId data \<noteq> local_id (sc_user sc)
      \<longrightarrow> handleDocumentUpdate sc data w = w\<lparr>content := upd_content data\<rparr>
          \<and> content (handleDocumentUpdate sc data w) = upd_content data)
   \<and> (upd_userId data = local_id (sc_user sc) \<longrightarrow> handleDocumentUpdate sc data w = w)"
  by (simp add: handleDocumentUpdate_def)

theorem C1_remote_update_echo_suppressed_witness:
  "upd_userId \<lparr>upd_userId = JNum 42, upd_content = ''theirs''\<rparr> \<noteq> local_id (sc_user (scope_of (opened ''1'' ''tok'' ann)))
   \<and> content (handleDocumentUpdate (scope_of (opened ''1'' ''tok'' ann))
        \<lparr>upd_userId = JNum 42, upd_content = ''theirs''\<rparr> (opened ''1'' ''tok'' ann)) = ''theirs''
   \<and> upd_userId \<lparr>upd_userId = JNum 7, upd_content = ''mine''\<rparr> = local_id (sc_user (scope_of (opened ''1'' ''tok'' ann)))
   \<and> handleDocumentUpdate (scope_of (opened ''1'' ''tok'' ann))
        \<lparr>upd_userId = JNum 7, upd_content = ''mine''\<rparr> (opened ''1'' ''tok'' ann) = opened ''1'' ''tok'' ann"
proof -
  have u: "sc_user (scope_of (opened ''1'' ''tok'' ann)) = Some ann"
    by (rule opened_user)
  have a: "upd_userId \<lparr>upd_userId = JNum 42, upd_content = ''theirs''\<rparr> \<noteq> local_id (sc_user (scope_of (opened ''1'' ''tok'' ann)))"
    unfolding u by (simp add: local_id_def ann_def)
  have b: "upd_userId \<lparr>upd_userId = JNum 7, upd_content = ''mine''\<rparr> = local_id (sc_user (scope_of (opened ''1'' ''tok'' ann)))"
    unfolding u by (simp add: local_id_def ann_def)
  from a b
    C1_remote_update_echo_suppressed [of "\<lparr>upd_userId = JNum 42, upd_content = ''theirs''\<rparr>"
      "scope_of (opened ''1'' ''tok'' ann)" "opened ''1'' ''tok'' ann"]
    C1_remote_update_echo_suppressed [of "\<lparr>upd_userId = JNum 7, upd_content = ''mine''\<rparr>"
      "scope_of (opened ''1'' ''tok'' ann)" "opened ''1'' ''tok'' ann"]
  show ?thesis by simp
qed

text \<open>
  Claim C2 as stated fails: a join for an identity that is on the roster adds a second
  entry, here for user 7 right after the snapshot that lists user 7.
\<close>

theorem C2_duplicate_join_counterexample:
  "activeUsers (handleUserJoined (JNum 7) (handleActiveUsers [JNum 7] (opened ''1'' ''tok'' ann)))
     = [JNum 7, JNum 7]
   \<and> activeUsers (handleUserJoined (JNum 7) (handleActiveUsers [JNum 7] (opened ''1'' ''tok'' ann)))
     \<noteq> activeUsers (handleActiveUsers [JNum 7] (opened ''1'' ''tok'' ann))"
  by (simp add: handleUserJoined_def handleActiveUsers_def)

text \<open>
  Claim C2, amended. \<open>handleUserJoined\<close> appends the identity to the roster whatever the
  roster holds, so the roster grows by one entry; for an identity already on the roster the
  set of identities stays the same.
\<close>

theorem C2_join_appends:
  "activeUsers (handleUserJoined u w) = activeUsers w @ [u]
   \<and> length (activeUsers (handleUserJoined u w)) = Suc (length (activeUsers w))
   \<and> (u \<in> set (activeUsers w)
        \<longrightarrow> set (activeUsers (handleUserJoined u w)) = set (activeUsers w))"
  by (auto simp add: handleUserJoined_def)

theorem C2_join_appends_witness:
  "JNum 7 \<in> set (activeUsers (handleActiveUsers [JNum 7] (opened ''1'' ''tok'' ann)))
   \<and> set (activeUsers (handleUserJoined (JNum 7) (handleActiveUsers [JNum 7] (opened ''1'' ''tok'' ann))))
       = {JNum 7}
   \<and> length (activeUsers (handleUserJoined (JNum 7) (handleActiveUsers [JNum 7] (opened ''1'' ''tok'' ann)))) = 2"
proof -
  have a: "activeUsers (handleActiveUsers [JNum 7] (opened ''1'' ''tok'' ann)) = [JNum 7]"
    by (simp add: handleActiveUsers_def)
  from a C2_join_appends [of "JNum 7" "handleActiveUsers [JNum 7] (opened ''1'' ''tok'' ann)"]
  show ?thesis by simp
qed

text \<open>
  Claim C6. From any state, the snapshot \<open>[a, b]\<close>, a join of \<open>c\<close> and a leave of \<open>b\<close> (with
  \<open>b\<close> different from \<open>a\<close> and \<open>c\<close>) leave the roster \<open>[a, c]\<close>, whose set is \<open>{a, c}\<close>; a
  snapshot replaces the roster; a leave of an identity that is not on the roster changes
  nothing.
\<close>

theorem C6_presence_scenario:
  "(b \<noteq> a \<and> b \<noteq> c \<longrightarrow>
      activeUsers (handleUserLeft b (handleUserJoined c (handleActiveUsers [a, b] w))) = [a, c]
      \<and> set (activeUsers (handleUserLeft b (handleUserJoined c (handleActiveUsers [a, b] w))))
          = {a, c})
   \<and> activeUsers (handleActiveUsers us w) = us
   \<and> (u \<notin> set (activeUsers w) \<longrightarrow> handleUserLeft u w = w)"
proof -
  have "filter (\<lambda>x. x \<noteq> u) (activeUsers w) = activeUsers w" if "u \<notin> set (activeUsers w)"
    using that by (induction "activeUsers w") (auto simp: filter_id_conv)
  then show ?thesis
    by (auto simp add: handleUserLeft_def handleUserJoined_def handleActiveUsers_def)
qed

theorem C6_presence_scenario_witness:
  "JStr ''B'' \<noteq> JStr ''A'' \<and> JStr ''B'' \<noteq> JStr ''C''
   \<and> set (activeUsers (handleUserLeft (JStr ''B'') (handleUserJoined (JStr ''C'')
            (handleActiveUsers [JStr ''A'', JStr ''B''] (handleActiveUsers [JStr ''Z''] (opened ''1'' ''tok'' ann))))))
       = {JStr ''A'', JStr ''C''}
   \<and> JStr ''B'' \<notin> set (activeUsers (handleActiveUsers [JStr ''A''] (opened ''1'' ''tok'' ann)))
   \<and> handleUserLeft (JStr ''B'') (handleActiveUsers [JStr ''A''] (opened ''1'' ''tok'' ann))
       = handleActiveUsers [JStr ''A''] (opened ''1'' ''tok'' ann)"
proof -
  have a: "JStr ''B'' \<noteq> JStr ''A'' \<and> JStr ''B'' \<noteq> JStr ''C''" by simp
  have b: "JStr ''B'' \<notin> set (activeUsers (handleActiveUsers [JStr ''A''] (opened ''1'' ''tok'' ann)))"
    by (simp add: handleActiveUsers_def)
  from a b
    C6_presence_scenario [where b = "JStr ''B''" and a = "JStr ''A''" and c = "JStr ''C''"
      and w = "handleActiveUsers [JStr ''Z''] (opened ''1'' ''tok'' ann)" and us = "[]"]
    C6_presence_scenario [where u = "JStr ''B''" and a = "JStr ''A''"
      and w = "handleActiveUsers [JStr ''A''] (opened ''1'' ''tok'' ann)" and us = "[]"]
  show ?thesis by simp
qed

section \<open>Autosave\<close>

subsection \<open>What each step leaves alone\<close>

lemma emit_frame:
  "timers (emit h ev p w) = timers w" "saveTimeoutRef (emit h ev p w) = saveTimeoutRef w"
  "nextTimer (emit h ev p w) = nextTimer w" "now (emit h ev p w) = now w"
  "requests (emit h ev p w) = requests w" "inflight (emit h ev p w) = inflight w"
  "content (emit h ev p w) = content w" "id_param (emit h ev p w) = id_param w"
  "alerts (emit h ev p w) = alerts w" "socket (emit h ev p w) = socket w"
  "mounted (emit h ev p w) = mounted w"
  by (simp_all add: emit_def)

lemma handleContentChange_frame:
  "content (handleContentChange sc b sel w) = b"
  "requests (handleContentChange sc b sel w) = requests w"
  "inflight (handleContentChange sc b sel w) = inflight w"
  "id_param (handleContentChange sc b sel w) = id_param w"
  "now (handleContentChange sc b sel w) = now w"
  "socket (handleContentChange sc b sel w) = socket w"
  "mounted (handleContentChange sc b sel w) = mounted w"
  "saveTimeoutRef (handleContentChange sc b sel w) = Some (nextTimer w)"
  "nextTimer (handleContentChange sc b sel w) = Suc (nextTimer w)"
  by (simp_all add: handleContentChange_def Let_def setTimeout_def clearTimeout_def emit_frame
      split: option.splits)

subsection \<open>One pending timeout\<close>

lemma filter_ref_empty:
  "list_all (\<lambda>x. r = Some (t_id x)) ts \<Longrightarrow> r = Some t \<Longrightarrow> filter (\<lambda>x. t_id x \<noteq> t) ts = []"
  by (induction ts) auto

lemma handleContentChange_timers:
  assumes "timer_inv w"
  shows "timers (handleContentChange sc b sel w)
           = [\<lparr>t_id = nextTimer w, t_due = now w + 2000, t_scope = sc, t_body = b\<rparr>]"
proof (cases "saveTimeoutRef w")
  case None
  with assms have "timers w = []"
    by (cases "timers w") (simp_all add: timer_inv_def)
  with None show ?thesis
    by (simp add: handleContentChange_def Let_def setTimeout_def emit_frame split: option.splits)
next
  case (Some t)
  have "filter (\<lambda>x. t_id x \<noteq> t) (timers w) = []"
    using assms [unfolded timer_inv_def] Some by (rule filter_ref_empty)
  with Some show ?thesis
    by (simp add: handleContentChange_def Let_def setTimeout_def clearTimeout_def emit_frame
        split: option.splits)
qed


lemma render_frame:
  "content (render w) = content w" "requests (render w) = requests w"
  "inflight (render w) = inflight w" "id_param (render w) = id_param w"
  "now (render w) = now w" "timers (render w) = timers w"
  "saveTimeoutRef (render w) = saveTimeoutRef w" "nextTimer (render w) = nextTimer w"
  "mounted (render w) = mounted w" "socket (render w) = socket w"
  by (simp_all add: render_def)

lemma advance_frame:
  "content (advance d w) = content w" "requests (advance d w) = requests w"
  "inflight (advance d w) = inflight w" "id_param (advance d w) = id_param w"
  "now (advance d w) = now w + d" "timers (advance d w) = timers w"
  "saveTimeoutRef (advance d w) = saveTimeoutRef w" "nextTimer (advance d w) = nextTimer w"
  "mounted (advance d w) = mounted w" "socket (advance d w) = socket w"
  by (simp_all add: advance_def)

lemma scope_of_frame:
  "sc_id (scope_of w) = id_param w"
  by (simp add: scope_of_def)

text \<open>One keystroke followed by a pause.\<close>

lemma keystroke_timer_inv:
  assumes "timer_inv w"
  shows "timer_inv (advance d (render (handleContentChange sc b sel w)))"
  using handleContentChange_timers [OF assms, of sc b sel]
  by (simp add: timer_inv_def advance_frame render_frame handleContentChange_frame)

lemma fire_single:
  assumes "timers w = [x]" and "t_id x = tid"
  shows "fire tid w =
           (if t_due x \<le> now w
            then Some (handleSave (t_scope x) (Some (t_body x)) (w\<lparr>timers := []\<rparr>))
            else None)"
  using assms by (simp add: fire_def clearTimeout_def)

lemma handleSave_started:
  assumes "\<not> falsy (sc_id sc)"
  shows "handleSave sc (Some b) w =
           w\<lparr>saving := True, requests := requests w @ [Put (sc_id sc) b],
             inflight := inflight w @ [AwaitPut sc b]\<rparr>"
  using assms by (simp add: handleSave_def)



text \<open>
  After a keystroke and a pause of \<open>d\<close> milliseconds the timeout of \<open>saveTimeoutRef\<close> can run
  exactly when \<open>d\<close> is at least 2000, and running it starts one \<open>handleSave\<close>.
\<close>

lemma keystroke_then_fire:
  assumes "timer_inv w" and "\<not> falsy (sc_id sc)"
  shows "fire_ref (advance d (render (handleContentChange sc b sel w))) =
           (if 2000 \<le> d
            then Some ((advance d (render (handleContentChange sc b sel w)))
                   \<lparr>timers := [], saving := True,
                     requests := requests w @ [Put (sc_id sc) b],
                     inflight := inflight w @ [AwaitPut sc b]\<rparr>)
            else None)"
proof -
  let ?w1 = "advance d (render (handleContentChange sc b sel w))"
  let ?x = "\<lparr>t_id = nextTimer w, t_due = now w + 2000, t_scope = sc, t_body = b\<rparr>"
  have t: "timers ?w1 = [?x]"
    using handleContentChange_timers [OF assms(1), of sc b sel]
    by (simp add: advance_frame render_frame)
  have r: "saveTimeoutRef ?w1 = Some (nextTimer w)"
    by (simp add: advance_frame render_frame handleContentChange_frame)
  have n: "now ?w1 = now w + d"
    by (simp add: advance_frame render_frame handleContentChange_frame)
  have f: "fire (nextTimer w) ?w1 =
             (if t_due ?x \<le> now ?w1
              then Some (handleSave (t_scope ?x) (Some (t_body ?x)) (?w1\<lparr>timers := []\<rparr>))
              else None)"
    by (rule fire_single [OF t]) simp
  have q: "requests ?w1 = requests w" "inflight ?w1 = inflight w"
    by (simp_all add: advance_frame render_frame handleContentChange_frame)
  show ?thesis
    unfolding fire_ref_def r option.case f
    using assms(2) q by (simp add: n handleSave_def)
qed

subsection \<open>Keystrokes, remote updates and pauses\<close>

lemma keystroke_armed:
  assumes "timer_inv w"
  shows "timers (keystroke b sel w)
           = [\<lparr>t_id = nextTimer w, t_due = now w + 2000, t_scope = scope_of w, t_body = b\<rparr>]"
    and "saveTimeoutRef (keystroke b sel w) = Some (nextTimer w)"
    and "now (keystroke b sel w) = now w"
    and "content (keystroke b sel w) = b"
    and "requests (keystroke b sel w) = requests w"
    and "id_param (keystroke b sel w) = id_param w"
  using handleContentChange_timers [OF assms, of "scope_of w" b sel]
  by (simp_all add: keystroke_def render_frame handleContentChange_frame)

lemma updates_frame:
  "timers (updates us v) = timers v"
  "saveTimeoutRef (updates us v) = saveTimeoutRef v"
  "now (updates us v) = now v"
  "requests (updates us v) = requests v"
  "id_param (updates us v) = id_param v"
proof (induction us arbitrary: v)
  case Nil
  { case 1 show ?case by simp }
  { case 2 show ?case by simp }
  { case 3 show ?case by simp }
  { case 4 show ?case by simp }
  { case 5 show ?case by simp }
next
  case (Cons p us)
  obtain sc data where p: "p = (sc, data)" by (cases p)
  { case 1 show ?case
      by (simp add: p Cons.IH(1) render_frame handleDocumentUpdate_def) }
  { case 2 show ?case
      by (simp add: p Cons.IH(2) render_frame handleDocumentUpdate_def) }
  { case 3 show ?case
      by (simp add: p Cons.IH(3) render_frame handleDocumentUpdate_def) }
  { case 4 show ?case
      by (simp add: p Cons.IH(4) render_frame handleDocumentUpdate_def) }
  { case 5 show ?case
      by (simp add: p Cons.IH(5) render_frame handleDocumentUpdate_def) }
qed

text \<open>
  A pause in a state whose one pending timeout was armed just now: the timeout runs
  exactly when the pause lasts 2000 ms or more.
\<close>

lemma pause_armed:
  assumes "timers v = [x]" and "saveTimeoutRef v = Some (t_id x)"
      and "t_due x = now v + 2000"
  shows "pause d v =
           (if d < 2000 then advance d v
            else advance (d - 2000)
                   (render (handleSave (t_scope x) (Some (t_body x))
                     ((advance 2000 v)\<lparr>timers := []\<rparr>))))"
proof -
  have t: "timers (advance 2000 v) = [x]"
    using assms(1) by (simp add: advance_frame)
  have f: "fire (t_id x) (advance 2000 v)
             = Some (handleSave (t_scope x) (Some (t_body x)) ((advance 2000 v)\<lparr>timers := []\<rparr>))"
    using fire_single [OF t refl] assms(3) by (simp add: advance_frame)
  show ?thesis
    using assms f by (simp add: pause_def max_def)
qed

text \<open>The pause is a run of the event loop: the time to the due moment passes, the timeout
  runs, the rest of the time passes.\<close>

lemma pause_is_run:
  assumes "timers v = [x]" and "saveTimeoutRef v = Some (t_id x)"
      and "t_due x = now v + 2000"
  shows "run (if d < 2000 then [Advance d]
              else [Advance 2000, Fire (t_id x), Advance (d - 2000)]) v
           = Some (pause d v)"
proof -
  have t: "timers (advance 2000 v) = [x]"
    using assms(1) by (simp add: advance_frame)
  have f: "fire (t_id x) (advance 2000 v)
             = Some (handleSave (t_scope x) (Some (t_body x)) ((advance 2000 v)\<lparr>timers := []\<rparr>))"
    using fire_single [OF t refl] assms(3) by (simp add: advance_frame)
  show ?thesis
    by (simp add: pause_armed [OF assms] f)
qed

lemma pause_armed_fields:
  assumes "timers v = [x]" and "saveTimeoutRef v = Some (t_id x)"
      and "t_due x = now v + 2000" and "\<not> falsy (sc_id (t_scope x))"
  shows "requests (pause d v)
           = requests v @ (if 2000 \<le> d then [Put (sc_id (t_scope x)) (t_body x)] else [])"
    and "timers (pause d v) = (if 2000 \<le> d then [] else [x])"
    and "content (pause d v) = content v"
    and "id_param (pause d v) = id_param v"
    and "saveTimeoutRef (pause d v) = saveTimeoutRef v"
  using assms(1,4)
  by (simp_all add: pause_armed [OF assms(1,2,3)] handleSave_started advance_frame render_frame
      advance_def)

lemma keystroke_pause:
  assumes "timer_inv w" and "\<not> falsy (id_param w)"
  shows "timer_inv (pause d (updates us (keystroke b sel w)))"
    and "id_param (pause d (updates us (keystroke b sel w))) = id_param w"
    and "requests (pause d (updates us (keystroke b sel w)))
           = requests w @ (if 2000 \<le> d then [Put (id_param w) b] else [])"
    and "timers (pause d (updates us (keystroke b sel w)))
           = (if 2000 \<le> d then [] else timers (keystroke b sel w))"
    and "content (pause d (updates us (keystroke b sel w)))
           = content (updates us (keystroke b sel w))"
proof -
  let ?k = "updates us (keystroke b sel w)"
  let ?x = "\<lparr>t_id = nextTimer w, t_due = now w + 2000, t_scope = scope_of w, t_body = b\<rparr>"
  note k = keystroke_armed [OF assms(1), of b sel]
  have a: "timers ?k = [?x]" "saveTimeoutRef ?k = Some (t_id ?x)" "t_due ?x = now ?k + 2000"
    "\<not> falsy (sc_id (t_scope ?x))"
    using assms(2) by (simp_all add: updates_frame k scope_of_frame)
  note p = pause_armed_fields [OF a, of d]
  show "timer_inv (pause d ?k)"
    by (simp add: timer_inv_def p a(2))
  show "id_param (pause d ?k) = id_param w"
    by (simp add: p updates_frame k)
  show "requests (pause d ?k) = requests w @ (if 2000 \<le> d then [Put (id_param w) b] else [])"
    by (simp add: p updates_frame k scope_of_frame)
  show "timers (pause d ?k) = (if 2000 \<le> d then [] else timers (keystroke b sel w))"
    by (simp add: p k)
  show "content (pause d ?k) = content ?k"
    by (simp add: p)
qed

text \<open>Along a run of keystrokes one write is sent for each pause of 2000 ms or more, and it
  carries the body of the keystroke before that pause.\<close>

lemma edits_frame:
  assumes "timer_inv w" and "\<not> falsy (id_param w)"
  shows "timer_inv (edits es w) \<and> id_param (edits es w) = id_param w
         \<and> requests (edits es w)
             = requests w @ map (\<lambda>(b, sel, d). Put (id_param w) b)
                              (filter (\<lambda>(b, sel, d). 2000 \<le> d) es)"
  using assms
proof (induction es arbitrary: w)
  case Nil
  then show ?case by simp
next
  case (Cons e es)
  obtain b sel d where e: "e = (b, sel, d)" by (cases e)
  let ?w1 = "pause d (keystroke b sel w)"
  note k = keystroke_pause [OF Cons.prems, of d "[]" b sel, simplified]
  have "\<not> falsy (id_param ?w1)" using Cons.prems(2) by (simp add: k(2))
  from Cons.IH [OF k(1) this] show ?case
    by (simp add: e k(2,3))
qed

subsection \<open>The claims on saving\<close>

text \<open>
  Claim C4. When the \<open>PUT\<close> of a suspended \<open>handleSave\<close> is rejected, the call ends in its
  \<open>catch\<close> and \<open>finally\<close> blocks: no socket has a new \<open>emit\<close> (no \<open>save-document\<close>), no request is
  added (no refreshing \<open>GET\<close>), the alert shows the error, \<open>content\<close> is what it was, no
  timeout is created or cleared (nothing is rescheduled), \<open>saving\<close> is cleared and the call is
  no longer in flight.
\<close>

theorem C4_failed_write_aborts:
  assumes "k < length (inflight w)" and "inflight w ! k = AwaitPut sc body"
  shows "put_settled k (Inl e) w = Some (save_failed e k w)
         \<and> sockets (save_failed e k w) = sockets w
         \<and> requests (save_failed e k w) = requests w
         \<and> alerts (save_failed e k w) = alerts w @ [error_message e ''Failed to save document'']
         \<and> content (save_failed e k w) = content w
         \<and> timers (save_failed e k w) = timers w
         \<and> saveTimeoutRef (save_failed e k w) = saveTimeoutRef w
         \<and> nextTimer (save_failed e k w) = nextTimer w
         \<and> saving (save_failed e k w) = False
         \<and> inflight (save_failed e k w) = drop_nth k (inflight w)
         \<and> length (inflight (save_failed e k w)) = length (inflight w) - 1"
  using assms
  by (simp add: put_settled_def save_failed_def alert_def console_error_def drop_nth_def)

theorem C4_failed_write_aborts_witness:
  "0 < length (inflight saving_world)
   \<and> inflight saving_world ! 0 = AwaitPut (scope_of loaded_world) ''Hello world''
   \<and> put_settled 0 (Inl (ApiError None)) saving_world
       = Some (save_failed (ApiError None) 0 saving_world)
   \<and> alerts (save_failed (ApiError None) 0 saving_world) = [''Failed to save document'']
   \<and> requests (save_failed (ApiError None) 0 saving_world)
       = [Get (Some ''1''), Put (Some ''1'') ''Hello world'']
   \<and> content (save_failed (ApiError None) 0 saving_world) = ''Hello world''
   \<and> timers (save_failed (ApiError None) 0 saving_world) = []
   \<and> inflight (save_failed (ApiError None) 0 saving_world) = []"
proof -
  have h1: "0 < length (inflight saving_world)" by code_simp
  have h2: "inflight saving_world ! 0 = AwaitPut (scope_of loaded_world) ''Hello world''"
    by code_simp
  have v: "alerts saving_world = []"
    "requests saving_world = [Get (Some ''1''), Put (Some ''1'') ''Hello world'']"
    "content saving_world = ''Hello world''" "timers saving_world = []"
    "length (inflight saving_world) = 1"
    by code_simp+
  from C4_failed_write_aborts [OF h1 h2, of "ApiError None"] h1 h2 v show ?thesis
    by (simp add: error_message_def drop_nth_def)
qed

text \<open>
  Claim C3 as stated fails. After the document has loaded: a keystroke, two seconds, the
  timeout fires and the first write is sent; before it settles another keystroke, two
  seconds, and the second timeout fires. Two \<open>handleSave\<close> calls are then in flight.
\<close>

theorem C3_overlapping_persists_counterexample:
  "in_flight (run [FetchDone (Inr hello_doc), Edit ''Hello w'' 7, Advance 2000, Fire 1,
                   Edit ''Hello world'' 11, Advance 2000, Fire 2]
                (opened ''1'' ''tok'' ann)) = Some 2"
  by code_simp

text \<open>
  Claim C3, amended. A keystroke starts no write and sends no request; it leaves one pending
  timeout, due 2000 ms later. When that timeout runs, \<open>handleSave\<close> is started whatever is
  already in flight: the calls in flight are those before, and one more.
\<close>

theorem C3_edit_rearms_fire_not_gated:
  assumes "timer_inv w" and "\<not> falsy (sc_id sc)" and "2000 \<le> d"
  shows "inflight (handleContentChange sc b sel w) = inflight w
         \<and> requests (handleContentChange sc b sel w) = requests w
         \<and> timers (handleContentChange sc b sel w)
             = [\<lparr>t_id = nextTimer w, t_due = now w + 2000, t_scope = sc, t_body = b\<rparr>]
         \<and> map_option inflight (fire_ref (advance d (render (handleContentChange sc b sel w))))
             = Some (inflight w @ [AwaitPut sc b])
         \<and> in_flight (fire_ref (advance d (render (handleContentChange sc b sel w))))
             = Some (Suc (length (inflight w)))"
  using assms(3) handleContentChange_timers [OF assms(1), of sc b sel]
  by (simp add: keystroke_then_fire [OF assms(1,2)] handleContentChange_frame in_flight_def)

theorem C3_edit_rearms_fire_not_gated_witness:
  "timer_inv saving_world \<and> \<not> falsy (sc_id (scope_of saving_world)) \<and> (2000::nat) \<le> 2000
   \<and> length (inflight saving_world) = 1
   \<and> inflight (handleContentChange (scope_of saving_world) ''Hello world!'' 12 saving_world)
       = inflight saving_world
   \<and> in_flight (fire_ref (advance 2000 (render
        (handleContentChange (scope_of saving_world) ''Hello world!'' 12 saving_world))))
       = Some 2"
proof -
  have h1: "timer_inv saving_world" by code_simp
  have h2: "\<not> falsy (sc_id (scope_of saving_world))" by code_simp
  have h3: "(2000::nat) \<le> 2000" by simp
  have v: "length (inflight saving_world) = 1" by code_simp
  from C3_edit_rearms_fire_not_gated [OF h1 h2 h3, of "''Hello world!''" 12] h1 h2 v
  show ?thesis by simp
qed

text \<open>
  Claim C5 as stated fails. The user types \<open>Hi\<close>; before the two seconds are over a
  \<open>document-update\<close> of user 42 replaces the body by \<open>Yo\<close>; the timeout then runs with no
  keystroke in between. The body when it runs is \<open>Yo\<close>, and the one write that is sent
  carries \<open>Hi\<close>.
\<close>

theorem C5_body_at_fire_time_counterexample:
  "map_option content
     (run [FetchDone (Inr hello_doc), Edit ''Hi'' 2,
           DocumentUpdate \<lparr>upd_userId = JNum 42, upd_content = ''Yo''\<rparr>, Advance 2000]
        (opened ''1'' ''tok'' ann)) = Some ''Yo''
   \<and> map_option requests
     (run [FetchDone (Inr hello_doc), Edit ''Hi'' 2,
           DocumentUpdate \<lparr>upd_userId = JNum 42, upd_content = ''Yo''\<rparr>, Advance 2000, Fire 1]
        (opened ''1'' ''tok'' ann))
     = Some [Get (Some ''1''), Put (Some ''1'') ''Hi'']
   \<and> map_option content
     (run [FetchDone (Inr hello_doc), Edit ''Hi'' 2,
           DocumentUpdate \<lparr>upd_userId = JNum 42, upd_content = ''Yo''\<rparr>, Advance 2000, Fire 1]
        (opened ''1'' ''tok'' ann)) = Some ''Yo''"
  by code_simp

text \<open>
  Claim C5, amended. Along any run of keystrokes and pauses, one write is sent for each
  pause of 2000 ms or more, carrying the body of the keystroke before that pause. After a
  further keystroke with body \<open>b\<close> exactly one timeout is pending, due 2000 ms after that
  keystroke and carrying \<open>b\<close>, and \<open>content\<close> is \<open>b\<close>. Whatever \<open>document-update\<close> events
  arrive next, a pause shorter than 2000 ms sends nothing and leaves the timeout pending,
  and a pause of 2000 ms or more sends exactly one write, for \<open>b\<close>, the body captured when
  the timeout was armed, and leaves no timeout pending; \<open>content\<close> then is what the updates
  left, which is \<open>b\<close> when there were none.
\<close>

theorem C5_persist_carries_armed_body:
  assumes "timer_inv w" and "\<not> falsy (id_param w)"
  shows "requests (edits es w)
           = requests w @ map (\<lambda>(b, sel, d). Put (id_param w) b)
                            (filter (\<lambda>(b, sel, d). 2000 \<le> d) es)
         \<and> timers (keystroke b sel (edits es w))
             = [\<lparr>t_id = nextTimer (edits es w), t_due = now (edits es w) + 2000,
                 t_scope = scope_of (edits es w), t_body = b\<rparr>]
         \<and> content (keystroke b sel (edits es w)) = b
         \<and> requests (keystroke b sel (edits es w)) = requests (edits es w)
         \<and> (d < 2000 \<longrightarrow>
              requests (pause d (updates us (keystroke b sel (edits es w))))
                = requests (edits es w)
              \<and> timers (pause d (updates us (keystroke b sel (edits es w))))
                = timers (keystroke b sel (edits es w)))
         \<and> (2000 \<le> d \<longrightarrow>
              requests (pause d (updates us (keystroke b sel (edits es w))))
                = requests (edits es w) @ [Put (id_param w) b]
              \<and> timers (pause d (updates us (keystroke b sel (edits es w)))) = []
              \<and> content (pause d (updates us (keystroke b sel (edits es w))))
                = content (updates us (keystroke b sel (edits es w)))
              \<and> content (pause d (keystroke b sel (edits es w))) = b)"
proof -
  let ?w0 = "edits es w"
  note e = edits_frame [OF assms, of es]
  have inv: "timer_inv ?w0" and i: "\<not> falsy (id_param ?w0)"
    using e assms(2) by simp_all
  note k = keystroke_armed [OF inv, of b sel]
  note p = keystroke_pause [OF inv i, of d us b sel]
  note q = keystroke_pause [OF inv i, of d "[]" b sel, simplified]
  have id: "id_param ?w0 = id_param w" using e by simp
  have c: "content (pause d (keystroke b sel ?w0)) = b"
    using q(5) k(4) by simp
  from e k p c show ?thesis
    by (simp add: id)
qed

theorem C5_persist_carries_armed_body_witness:
  "timer_inv loaded_world \<and> \<not> falsy (id_param loaded_world)
   \<and> (1999::nat) < 2000 \<and> (2000::nat) \<le> 2000
   \<and> requests (edits [(''Hi'', 2, 500), (''Hi there'', 8, 2000)] loaded_world)
       = [Get (Some ''1''), Put (Some ''1'') ''Hi there'']
   \<and> requests (edits [(''Hi'', 2, 5000), (''Hi there'', 8, 2000)] loaded_world)
       = [Get (Some ''1''), Put (Some ''1'') ''Hi'', Put (Some ''1'') ''Hi there'']
   \<and> requests (pause 1999 (updates [] (keystroke ''Hi there'' 8
        (edits [(''Hi'', 2, 500)] loaded_world))))
       = [Get (Some ''1'')]
   \<and> requests (pause 2000 (updates
        [(scope_of loaded_world, \<lparr>upd_userId = JNum 42, upd_content = ''Yo''\<rparr>)]
        (keystroke ''Hi there'' 8 (edits [(''Hi'', 2, 500)] loaded_world))))
       = [Get (Some ''1''), Put (Some ''1'') ''Hi there'']
   \<and> content (pause 2000 (updates
        [(scope_of loaded_world, \<lparr>upd_userId = JNum 42, upd_content = ''Yo''\<rparr>)]
        (keystroke ''Hi there'' 8 (edits [(''Hi'', 2, 500)] loaded_world))))
       = ''Yo''
   \<and> content (pause 2000 (keystroke ''Hi there'' 8 (edits [(''Hi'', 2, 500)] loaded_world)))
       = ''Hi there''"
proof -
  have h1: "timer_inv loaded_world" by code_simp
  have h2: "\<not> falsy (id_param loaded_world)" by code_simp
  have v: "requests loaded_world = [Get (Some ''1'')]" "id_param loaded_world = Some ''1''"
    "requests (edits [(''Hi'', 2, 500)] loaded_world) = [Get (Some ''1'')]"
    "content (updates [(scope_of loaded_world, \<lparr>upd_userId = JNum 42, upd_content = ''Yo''\<rparr>)]
        (keystroke ''Hi there'' 8 (edits [(''Hi'', 2, 500)] loaded_world))) = ''Yo''"
    by code_simp+
  from C5_persist_carries_armed_body [OF h1 h2,
      where es = "[(''Hi'', 2, 500), (''Hi there'', 8, 2000)]" and d = 0 and us = "[]"
        and b = "[]" and sel = 0]
    C5_persist_carries_armed_body [OF h1 h2,
      where es = "[(''Hi'', 2, 5000), (''Hi there'', 8, 2000)]" and d = 0 and us = "[]"
        and b = "[]" and sel = 0]
    C5_persist_carries_armed_body [OF h1 h2,
      where es = "[(''Hi'', 2, 500)]" and b = "''Hi there''" and sel = 8 and d = 1999
        and us = "[]"]
    C5_persist_carries_armed_body [OF h1 h2,
      where es = "[(''Hi'', 2, 500)]" and b = "''Hi there''" and sel = 8 and d = 2000
        and us = "[(scope_of loaded_world, \<lparr>upd_userId = JNum 42, upd_content = ''Yo''\<rparr>)]"]
    h1 h2 v
  show ?thesis by simp
qed

section \<open>Closing a session\<close>

lemma sock_off_nth:
  "h < length (sockets w) \<Longrightarrow>
     sockets (sock_off h ev f w) ! h
       = (sockets w ! h)\<lparr>listeners := remove1 (ev, f) (listeners (sockets w ! h))\<rparr>"
  "length (sockets (sock_off h ev f w)) = length (sockets w)"
  "j \<noteq> h \<Longrightarrow> sockets (sock_off h ev f w) ! j = sockets w ! j"
  "socket (sock_off h ev f w) = socket w"
  by (simp_all add: sock_off_def)

lemma emit_nth:
  "h < length (sockets w) \<Longrightarrow>
     sockets (emit h ev p w) ! h
       = (sockets w ! h)\<lparr>emitted := emitted (sockets w ! h) @ [(ev, p)]\<rparr>"
  "length (sockets (emit h ev p w)) = length (sockets w)"
  "j \<noteq> h \<Longrightarrow> sockets (emit h ev p w) ! j = sockets w ! j"
  by (simp_all add: emit_def)

lemma filter_absent: "x \<notin> set xs \<Longrightarrow> filter (\<lambda>y. y \<noteq> x) xs = xs"
  by (induction xs) auto

lemma remove1_filter: "distinct xs \<Longrightarrow> remove1 x xs = filter (\<lambda>y. y \<noteq> x) xs"
  by (induction xs) (auto simp: filter_absent)

lemma run_cleanup_socket:
  assumes "effect_cleanup w = Some (Cleanup sc h g)" and "h < length (sockets w)"
      and "distinct (listeners (sockets w ! h))"
  shows "listeners (sockets (run_cleanup w) ! h)
           = filter (\<lambda>l. l \<notin> set (session_listeners g)) (listeners (sockets w ! h))"
    and "emitted (sockets (run_cleanup w) ! h)
           = emitted (sockets w ! h) @ [(''leave-document'', DocId (sc_id sc))]"
    and "sock_active (sockets (run_cleanup w) ! h) = sock_active (sockets w ! h)"
    and "auth_token (sockets (run_cleanup w) ! h) = auth_token (sockets w ! h)"
proof -
  show "listeners (sockets (run_cleanup w) ! h)
           = filter (\<lambda>l. l \<notin> set (session_listeners g)) (listeners (sockets w ! h))"
    using assms
    by (auto simp add: run_cleanup_def sock_off_nth emit_nth remove1_filter
        session_listeners_def all_handlers_def intro!: filter_cong)
  show "emitted (sockets (run_cleanup w) ! h)
           = emitted (sockets w ! h) @ [(''leave-document'', DocId (sc_id sc))]"
    using assms by (simp add: run_cleanup_def sock_off_nth emit_nth)
  show "sock_active (sockets (run_cleanup w) ! h) = sock_active (sockets w ! h)"
    using assms by (simp add: run_cleanup_def sock_off_nth emit_nth)
  show "auth_token (sockets (run_cleanup w) ! h) = auth_token (sockets w ! h)"
    using assms by (simp add: run_cleanup_def sock_off_nth emit_nth)
qed

lemma sock_off_frame:
  "effect_cleanup (sock_off h ev f w) = effect_cleanup w"
  "content (sock_off h ev f w) = content w"
  "document (sock_off h ev f w) = document w"
  "loading (sock_off h ev f w) = loading w"
  "alerts (sock_off h ev f w) = alerts w"
  "location (sock_off h ev f w) = location w"
  "timers (sock_off h ev f w) = timers w"
  "mounted (sock_off h ev f w) = mounted w"
  by (simp_all add: sock_off_def)

lemma emit_frame2:
  "effect_cleanup (emit h ev p w) = effect_cleanup w"
  "document (emit h ev p w) = document w"
  "loading (emit h ev p w) = loading w"
  "location (emit h ev p w) = location w"
  by (simp_all add: emit_def)

lemma run_cleanup_frame:
  "socket (run_cleanup w) = socket w"
  "length (sockets (run_cleanup w)) = length (sockets w)"
  "effect_cleanup (run_cleanup w) = None"
  "content (run_cleanup w) = content w"
  "document (run_cleanup w) = document w"
  "loading (run_cleanup w) = loading w"
  "alerts (run_cleanup w) = alerts w"
  "location (run_cleanup w) = location w"
  "timers (run_cleanup w) = timers w"
  "mounted (run_cleanup w) = mounted w"
  by (simp_all add: run_cleanup_def sock_off_frame sock_off_nth emit_nth emit_frame emit_frame2
      split: option.splits cleanup.splits)

lemma run_cleanup_others:
  assumes "effect_cleanup w = Some (Cleanup sc h g)" and "j \<noteq> h"
  shows "sockets (run_cleanup w) ! j = sockets w ! j"
  using assms by (simp add: run_cleanup_def sock_off_nth emit_nth)


lemma useEffect_run_registers:
  assumes "\<not> falsy (id_param w)" and "socket_c w = Some h" and "h < length (sockets w)"
  shows "listeners (sockets (useEffect_run w) ! h)
           = listeners (sockets w ! h) @ session_listeners (render_no w)"
    and "emitted (sockets (useEffect_run w) ! h)
           = emitted (sockets w ! h) @ [(''join-document'', DocId (id_param w))]"
    and "effect_cleanup (useEffect_run w) = Some (Cleanup (scope_of w) h (render_no w))"
  using assms
  by (simp_all add: useEffect_run_def sock_on_def emit_def fetchDocument_def
      session_listeners_def all_handlers_def)

text \<open>
  Claim C8. The cleanup of the effect of render \<open>g\<close> removes from the socket every listener
  that effect registered and keeps the others in order, emits \<open>leave-document\<close> with the
  document id, and leaves the module variable, the number of socket objects, and the
  socket's \<open>active\<close> flag and token as they were: the connection is not closed.
\<close>

theorem C8_close_unregisters_keeps_connection:
  assumes "effect_cleanup w = Some (Cleanup sc h g)" and "h < length (sockets w)"
      and "distinct (listeners (sockets w ! h))"
  shows "listeners (sockets (run_cleanup w) ! h)
           = filter (\<lambda>l. l \<notin> set (session_listeners g)) (listeners (sockets w ! h))
         \<and> set (listeners (sockets (run_cleanup w) ! h)) \<inter> set (session_listeners g) = {}
         \<and> emitted (sockets (run_cleanup w) ! h)
             = emitted (sockets w ! h) @ [(''leave-document'', DocId (sc_id sc))]
         \<and> effect_cleanup (run_cleanup w) = None
         \<and> socket (run_cleanup w) = socket w
         \<and> length (sockets (run_cleanup w)) = length (sockets w)
         \<and> sock_active (sockets (run_cleanup w) ! h) = sock_active (sockets w ! h)
         \<and> auth_token (sockets (run_cleanup w) ! h) = auth_token (sockets w ! h)"
proof -
  note s = run_cleanup_socket [OF assms]
  have "set (listeners (sockets (run_cleanup w) ! h)) \<inter> set (session_listeners g) = {}"
    unfolding s(1) by auto
  with s show ?thesis
    by (simp add: run_cleanup_frame)
qed

theorem C8_close_unregisters_keeps_connection_witness:
  "effect_cleanup loaded_world
     = Some (Cleanup \<lparr>sc_id = Some ''1'', sc_socket = Some 0, sc_user = Some ann, sc_content = []\<rparr> 0 1)
   \<and> 0 < length (sockets loaded_world)
   \<and> distinct (listeners (sockets loaded_world ! 0))
   \<and> listeners (sockets loaded_world ! 0) = session_listeners 1
   \<and> listeners (sockets (run_cleanup loaded_world) ! 0) = []
   \<and> emitted (sockets (run_cleanup loaded_world) ! 0)
       = [(''join-document'', DocId (Some ''1'')), (''leave-document'', DocId (Some ''1''))]
   \<and> socket (run_cleanup loaded_world) = Some 0
   \<and> sock_active (sockets (run_cleanup loaded_world) ! 0)"
proof -
  have h1: "effect_cleanup loaded_world
     = Some (Cleanup \<lparr>sc_id = Some ''1'', sc_socket = Some 0, sc_user = Some ann, sc_content = []\<rparr> 0 1)"
    by code_simp
  have h2: "0 < length (sockets loaded_world)" by code_simp
  have h3: "distinct (listeners (sockets loaded_world ! 0))" by code_simp
  have v: "listeners (sockets loaded_world ! 0) = session_listeners 1"
    "emitted (sockets loaded_world ! 0) = [(''join-document'', DocId (Some ''1''))]"
    "socket loaded_world = Some 0" "sock_active (sockets loaded_world ! 0)"
    by code_simp+
  from C8_close_unregisters_keeps_connection [OF h1 h2 h3] h1 h2 h3 v
  show ?thesis by simp
qed

lemma navigate_away:
  assumes "mounted w"
  shows "navigate ''/documents'' w = unmount (w\<lparr>location := ''/documents''\<rparr>)"
  using assms by (simp add: navigate_def editor_route_def)

lemma load_failed_unfold:
  assumes "mounted w"
  shows "load_failed e w =
           (run_cleanup (w\<lparr>console := console w @ [''Error fetching document:''],
                           alerts := alerts w @ [error_message e ''Failed to load document''],
                           location := ''/documents''\<rparr>))\<lparr>mounted := False\<rparr>"
  using assms
  by (simp add: load_failed_def navigate_away alert_def console_error_def unmount_def)

text \<open>
  Claim C9. When the fetch of an open editor is rejected, the alert shows the error (the
  message of the response, or \<open>Failed to load document\<close>), the location becomes
  \<open>/documents\<close>, and the editor is taken off the page: it is not mounted, its textarea is
  not editable, no effect cleanup is pending, and the listeners its effect had registered
  are off the socket, which has received \<open>leave-document\<close>. \<open>document\<close>, \<open>content\<close> and
  \<open>loading\<close> are as before the failure.
\<close>

theorem C9_failed_fetch_surfaces_and_redirects:
  assumes "0 < fetches w" and "mounted w"
  shows "fetchDocument_settled (Inl e) w = Some (load_failed e (w\<lparr>fetches := fetches w - 1\<rparr>))
         \<and> alerts (load_failed e (w\<lparr>fetches := fetches w - 1\<rparr>))
             = alerts w @ [error_message e ''Failed to load document'']
         \<and> location (load_failed e (w\<lparr>fetches := fetches w - 1\<rparr>)) = ''/documents''
         \<and> mounted (load_failed e (w\<lparr>fetches := fetches w - 1\<rparr>)) = False
         \<and> editable (load_failed e (w\<lparr>fetches := fetches w - 1\<rparr>)) = False
         \<and> effect_cleanup (load_failed e (w\<lparr>fetches := fetches w - 1\<rparr>)) = None
         \<and> document (load_failed e (w\<lparr>fetches := fetches w - 1\<rparr>)) = document w
         \<and> content (load_failed e (w\<lparr>fetches := fetches w - 1\<rparr>)) = content w
         \<and> loading (load_failed e (w\<lparr>fetches := fetches w - 1\<rparr>)) = loading w
         \<and> (effect_cleanup w = Some (Cleanup sc h g) \<and> h < length (sockets w)
              \<and> distinct (listeners (sockets w ! h))
            \<longrightarrow> set (listeners (sockets (load_failed e (w\<lparr>fetches := fetches w - 1\<rparr>)) ! h))
                  \<inter> set (session_listeners g) = {}
                \<and> emitted (sockets (load_failed e (w\<lparr>fetches := fetches w - 1\<rparr>)) ! h)
                    = emitted (sockets w ! h) @ [(''leave-document'', DocId (sc_id sc))])"
proof -
  let ?w1 = "w\<lparr>fetches := fetches w - 1\<rparr>"
  let ?w2 = "?w1\<lparr>console := console ?w1 @ [''Error fetching document:''],
                 alerts := alerts ?w1 @ [error_message e ''Failed to load document''],
                 location := ''/documents''\<rparr>"
  have m: "mounted ?w1" using assms(2) by simp
  note u = load_failed_unfold [OF m, of e]
  have a: "fetchDocument_settled (Inl e) w = Some (load_failed e ?w1)"
    using assms(1) by (simp add: fetchDocument_settled_def)
  have b: "alerts (load_failed e ?w1) = alerts w @ [error_message e ''Failed to load document'']"
    "location (load_failed e ?w1) = ''/documents''"
    "mounted (load_failed e ?w1) = False"
    "effect_cleanup (load_failed e ?w1) = None"
    "document (load_failed e ?w1) = document w"
    "content (load_failed e ?w1) = content w"
    "loading (load_failed e ?w1) = loading w"
    unfolding u by (simp_all add: run_cleanup_frame)
  have c: "editable (load_failed e ?w1) = False"
    using b(3) unfolding editable_def by simp
  have d: "set (listeners (sockets (load_failed e ?w1) ! h)) \<inter> set (session_listeners g) = {}
           \<and> emitted (sockets (load_failed e ?w1) ! h)
               = emitted (sockets w ! h) @ [(''leave-document'', DocId (sc_id sc))]"
    if "effect_cleanup w = Some (Cleanup sc h g)" and "h < length (sockets w)"
      and "distinct (listeners (sockets w ! h))"
  proof -
    have "effect_cleanup ?w2 = Some (Cleanup sc h g)" "h < length (sockets ?w2)"
      "distinct (listeners (sockets ?w2 ! h))"
      using that by simp_all
    note s = run_cleanup_socket [OF this]
    have "set (listeners (sockets (run_cleanup ?w2) ! h)) \<inter> set (session_listeners g) = {}"
      unfolding s(1) by auto
    with s(2) show ?thesis unfolding u by simp
  qed
  from a b c d show ?thesis by blast
qed

theorem C9_failed_fetch_surfaces_and_redirects_witness:
  "0 < fetches (opened ''1'' ''tok'' ann) \<and> mounted (opened ''1'' ''tok'' ann)
   \<and> effect_cleanup (opened ''1'' ''tok'' ann)
     = Some (Cleanup \<lparr>sc_id = Some ''1'', sc_socket = Some 0, sc_user = Some ann, sc_content = []\<rparr> 0 1)
   \<and> 0 < length (sockets (opened ''1'' ''tok'' ann))
   \<and> distinct (listeners (sockets (opened ''1'' ''tok'' ann) ! 0))
   \<and> fetchDocument_settled (Inl (ApiError (Some ''Forbidden''))) (opened ''1'' ''tok'' ann)
       = Some (load_failed (ApiError (Some ''Forbidden''))
                ((opened ''1'' ''tok'' ann)\<lparr>fetches := fetches (opened ''1'' ''tok'' ann) - 1\<rparr>))
   \<and> alerts (load_failed (ApiError (Some ''Forbidden''))
                ((opened ''1'' ''tok'' ann)\<lparr>fetches := fetches (opened ''1'' ''tok'' ann) - 1\<rparr>))
       = [''Forbidden'']
   \<and> location (load_failed (ApiError (Some ''Forbidden''))
                ((opened ''1'' ''tok'' ann)\<lparr>fetches := fetches (opened ''1'' ''tok'' ann) - 1\<rparr>))
       = ''/documents''
   \<and> \<not> mounted (load_failed (ApiError (Some ''Forbidden''))
                ((opened ''1'' ''tok'' ann)\<lparr>fetches := fetches (opened ''1'' ''tok'' ann) - 1\<rparr>))
   \<and> set (listeners (sockets (load_failed (ApiError (Some ''Forbidden''))
                ((opened ''1'' ''tok'' ann)\<lparr>fetches := fetches (opened ''1'' ''tok'' ann) - 1\<rparr>)) ! 0))
        \<inter> set (session_listeners 1) = {}
   \<and> emitted (sockets (load_failed (ApiError (Some ''Forbidden''))
                ((opened ''1'' ''tok'' ann)\<lparr>fetches := fetches (opened ''1'' ''tok'' ann) - 1\<rparr>)) ! 0)
       = [(''join-document'', DocId (Some ''1'')), (''leave-document'', DocId (Some ''1''))]"
proof -
  let ?w = "opened ''1'' ''tok'' ann"
  have h1: "0 < fetches ?w" by code_simp
  have h2: "mounted ?w" by code_simp
  have h3: "effect_cleanup ?w
     = Some (Cleanup \<lparr>sc_id = Some ''1'', sc_socket = Some 0, sc_user = Some ann, sc_content = []\<rparr> 0 1)"
    by code_simp
  have h4: "0 < length (sockets ?w)" by code_simp
  have h5: "distinct (listeners (sockets ?w ! 0))" by code_simp
  have v: "alerts ?w = []" "emitted (sockets ?w ! 0) = [(''join-document'', DocId (Some ''1''))]"
    by code_simp+
  from C9_failed_fetch_surfaces_and_redirects [OF h1 h2, of "ApiError (Some ''Forbidden'')"
      "\<lparr>sc_id = Some ''1'', sc_socket = Some 0, sc_user = Some ann, sc_content = []\<rparr>" 0 1]
    h1 h2 h3 h4 h5 v
  show ?thesis by (simp add: error_message_def)
qed

section \<open>The pending timeout along a run\<close>

lemma timer_inv_cong:
  "timers w' = timers w \<Longrightarrow> saveTimeoutRef w' = saveTimeoutRef w \<Longrightarrow> timer_inv w
     \<Longrightarrow> timer_inv w'"
  by (simp add: timer_inv_def)

lemma handleSave_timers:
  "timers (handleSave sc c w) = timers w" "saveTimeoutRef (handleSave sc c w) = saveTimeoutRef w"
  by (simp_all add: handleSave_def Let_def)

lemma fire_timer_inv:
  assumes "fire tid w = Some w'" and "timer_inv w"
  shows "timer_inv w'"
proof (cases "filter (\<lambda>x. t_id x = tid) (timers w)")
  case Nil
  with assms(1) show ?thesis by (simp add: fire_def)
next
  case (Cons x xs)
  with assms(1) have w': "w' = handleSave (t_scope x) (Some (t_body x)) (clearTimeout tid w)"
    by (simp add: fire_def split: if_splits)
  have "list_all (\<lambda>x. saveTimeoutRef w = Some (t_id x)) (filter (\<lambda>x. t_id x \<noteq> tid) (timers w))"
    using assms(2) by (simp add: timer_inv_def list_all_iff)
  then show ?thesis
    by (simp add: w' timer_inv_def handleSave_timers clearTimeout_def)
qed

lemma put_settled_timer_inv:
  assumes "put_settled k res w = Some w'" and "timer_inv w"
  shows "timer_inv w'"
proof -
  from assms(1) have "timers w' = timers w \<and> saveTimeoutRef w' = saveTimeoutRef w"
    by (auto simp add: put_settled_def save_failed_def alert_def console_error_def emit_frame
        Let_def split: if_splits pending.splits sum.splits option.splits)
  with assms(2) show ?thesis by (simp add: timer_inv_def)
qed

lemma get_settled_timer_inv:
  assumes "get_settled k res w = Some w'" and "timer_inv w"
  shows "timer_inv w'"
proof -
  from assms(1) have "timers w' = timers w \<and> saveTimeoutRef w' = saveTimeoutRef w"
    by (auto simp add: get_settled_def save_failed_def alert_def console_error_def
        split: if_splits pending.splits sum.splits)
  with assms(2) show ?thesis by (simp add: timer_inv_def)
qed

lemma sock_off_ref: "saveTimeoutRef (sock_off h ev f w) = saveTimeoutRef w"
  by (simp add: sock_off_def)

lemma run_cleanup_ref: "saveTimeoutRef (run_cleanup w) = saveTimeoutRef w"
  by (simp add: run_cleanup_def sock_off_ref emit_frame split: option.splits cleanup.splits)

lemma sock_on_timers:
  "timers (sock_on h ev f w) = timers w" "saveTimeoutRef (sock_on h ev f w) = saveTimeoutRef w"
  by (simp_all add: sock_on_def)

lemma useEffect_run_timers:
  "timers (useEffect_run w) = timers w" "saveTimeoutRef (useEffect_run w) = saveTimeoutRef w"
  by (simp_all add: useEffect_run_def sock_on_timers emit_frame fetchDocument_def
      split: option.splits)

lemma fetchDocument_settled_timer_inv:
  assumes "fetchDocument_settled res w = Some w'" and "timer_inv w"
  shows "timer_inv w'"
proof -
  from assms(1) have "timers w' = timers w \<and> saveTimeoutRef w' = saveTimeoutRef w"
    by (auto simp add: fetchDocument_settled_def load_failed_def navigate_def unmount_def
        alert_def console_error_def run_cleanup_frame run_cleanup_ref
        split: if_splits sum.splits)
  with assms(2) show ?thesis by (simp add: timer_inv_def)
qed

lemma render_timer_inv: "timer_inv w \<Longrightarrow> timer_inv (render w)"
  by (simp add: timer_inv_def render_frame)

lemma step_timer_inv:
  assumes "step e w = Some w'" and "timer_inv w"
  shows "timer_inv w'"
proof (cases e)
  case (Edit b sel)
  with assms(1) have "w' = advance 0 (render (handleContentChange (scope_of w) b sel w))"
    by (simp add: advance_def split: if_splits)
  with assms(2) show ?thesis by (simp add: keystroke_timer_inv)
next
  case (Advance d)
  with assms show ?thesis by (auto simp add: timer_inv_def advance_frame)
next
  case (Fire tid)
  with assms show ?thesis by (auto simp add: fire_timer_inv render_timer_inv)
next
  case (PutDone k res)
  with assms show ?thesis by (auto simp add: put_settled_timer_inv render_timer_inv)
next
  case (GetDone k res)
  with assms show ?thesis by (auto simp add: get_settled_timer_inv render_timer_inv)
next
  case (FetchDone res)
  with assms show ?thesis by (auto simp add: fetchDocument_settled_timer_inv render_timer_inv)
next
  case (DocumentUpdate data)
  with assms show ?thesis
    by (auto simp add: timer_inv_def render_frame handleDocumentUpdate_def
        split: option.splits cleanup.splits)
qed

text \<open>The invariant holds when the editor opens and in every state a run reaches.\<close>

lemma opened_timer_inv: "timer_inv (opened i token u)"
  by (simp add: timer_inv_def opened_def useEffect_run_timers render_frame initSocket_def
      fresh_world_def)

lemma run_timer_inv:
  "run es w = Some w' \<Longrightarrow> timer_inv w \<Longrightarrow> timer_inv w'"
proof (induction es arbitrary: w)
  case Nil
  then show ?case by simp
next
  case (Cons e es)
  then show ?case
    by (auto split: option.splits dest: step_timer_inv)
qed

end
